theory Spec2Isabelle
  imports Main "HOL-Library.Sublist"
begin

section \<open>Data model\<close>

text \<open>
  The three Mongoose collections of the backend (User, Item, Swap) and the documents they
  hold. JavaScript numbers that the routes validate as integers are \<open>int\<close>; dates are
  milliseconds since the epoch; ObjectIds are natural numbers. A Swap's id is its position
  in the collection: no route ever deletes a Swap.
\<close>

type_synonym uid = nat
type_synonym iid = nat
type_synonym sid = nat
type_synonym time = nat

subsection \<open>models/User.js\<close>

datatype role = UserRole | Admin

datatype account_status = AccountActive | AccountPending | Suspended

text \<open>
  The three statistics that \<open>checkMilestones\<close> reads. An achievement key is the source's
  string \<open>`${milestone.type}_${level}`\<close>, kept as the pair it is built from.
\<close>

datatype metric = ItemsListed | SwapsCompleted | TotalPointsEarned

record stats =
  itemsListed :: int
  swapsCompleted :: int
  totalPointsEarned :: int
  totalPointsSpent :: int

record user =
  points :: int
  role :: role
  account_status :: account_status
  stats :: stats
  achievements :: "(metric \<times> int) list"

subsection \<open>models/Item.js\<close>

datatype item_status = Active | PendingApproval | Sold | Removed | Flagged

record item =
  owner :: uid
  item_points :: int
  item_status :: item_status
  isRedeemable :: bool

subsection \<open>models/Swap.js\<close>

datatype swap_type = SwapT | Redeem

datatype swap_status = Pending | Accepted | Rejected | Completed | Cancelled

datatype action =
  CreatedA | AcceptedA | RejectedA | ShippedA | ReceivedA | CompletedA | CancelledA | DisputedA

record timeline_entry =
  action :: action
  actor :: "uid option"
  timestamp :: time
  details :: string

record rating =
  rating_value :: int
  comment :: "string option"
  createdAt :: time

record shipping =
  initiatorTracking :: "string option"
  recipientTracking :: "string option"
  initiatorShippedAt :: "time option"
  recipientShippedAt :: "time option"
  initiatorReceivedAt :: "time option"
  recipientReceivedAt :: "time option"

datatype reason = ItemNotAsDescribed | Damaged | NotReceived | Other

datatype dispute_status = Open | Resolved | Closed

record dispute =
  raisedBy :: "uid option"
  dispute_reason :: "reason option"
  description :: "string option"
  dispute_status :: dispute_status
  adminNotes :: "string option"
  resolvedBy :: "uid option"
  resolvedAt :: "time option"

record swap =
  initiator :: uid
  recipient :: uid
  initiatorItem :: "iid option"
  recipientItem :: iid
  swap_type :: swap_type
  status :: swap_status
  swap_points :: int
  message :: "string option"
  initiatorRating :: "rating option"
  recipientRating :: "rating option"
  shipping :: shipping
  dispute :: dispute
  timeline :: "timeline_entry list"
  expiresAt :: time

record state =
  users :: "uid \<rightharpoonup> user"
  items :: "iid \<rightharpoonup> item"
  swaps :: "swap list"

text \<open>What a thrown \<open>Error\<close> of a Swap instance method says.\<close>

datatype thrown =
  NotPending | OnlyRecipient | NotAccepted | UserNotParty | NotCompleted
  | InitiatorAlreadyRated | RecipientAlreadyRated | NotDisputable | DisputeExists
  | ValidationError   \<comment> \<open>a schema validator of \<open>save\<close>: \<open>min: 0\<close> on points\<close>
  | NullOwner         \<comment> \<open>\<open>item.owner._id\<close> when the populated owner is null\<close>

text \<open>The failure responses of the routes (status code and message in the comments).\<close>

datatype error =
  Unauthorized                \<comment> \<open>401, the \<open>protect\<close> middleware\<close>
  | AdminRequired             \<comment> \<open>403 Access denied. Admin role required.\<close>
  | ValidationFailed          \<comment> \<open>400 Validation failed\<close>
  | SwapNotFound              \<comment> \<open>404 Swap not found\<close>
  | ItemNotFound              \<comment> \<open>404 (Recipient) item not found\<close>
  | ItemUnavailable           \<comment> \<open>400 Recipient item is not available\<close>
  | SelfTradeNotAllowed       \<comment> \<open>400 Cannot swap with / buy your own item\<close>
  | InitiatorItemRequired     \<comment> \<open>400 Initiator item is required for swaps\<close>
  | InitiatorItemNotFound     \<comment> \<open>404 Initiator item not found\<close>
  | InitiatorItemNotOwned     \<comment> \<open>403 Not authorized to use this item\<close>
  | InitiatorItemUnavailable  \<comment> \<open>400 Initiator item is not available\<close>
  | InsufficientPoints        \<comment> \<open>400 Insufficient points for this item\<close>
  | DuplicateActiveRequest    \<comment> \<open>400 This item already has a pending swap request\<close>
  | NotAuthorized             \<comment> \<open>403 Not authorized to ... this swap / item\<close>
  | NotRedeemable             \<comment> \<open>400 This item cannot be purchased with points\<close>
  | DisputeNotOpen            \<comment> \<open>400 Dispute is not open\<close>
  | AlreadyRated              \<comment> \<open>400 ... has already rated this swap\<close>
  | DisputeAlreadyOpen        \<comment> \<open>400 Dispute already exists for this swap\<close>
  | ServerError thrown        \<comment> \<open>500, the route's \<open>catch\<close> of a thrown error\<close>

section \<open>Swap instance methods (models/Swap.js)\<close>

definition push :: "timeline_entry \<Rightarrow> swap \<Rightarrow> swap" where
  "push e sw = sw\<lparr>timeline := timeline sw @ [e]\<rparr>"

definition entry :: "action \<Rightarrow> uid option \<Rightarrow> time \<Rightarrow> string \<Rightarrow> timeline_entry" where
  "entry a u t d = \<lparr>action = a, actor = u, timestamp = t, details = d\<rparr>"

definition accept :: "swap \<Rightarrow> uid \<Rightarrow> time \<Rightarrow> thrown + swap" where
  "accept sw userId now =
     (if status sw \<noteq> Pending then Inl NotPending
      else if recipient sw \<noteq> userId then Inl OnlyRecipient
      else Inr (push (entry AcceptedA (Some userId) now ''Swap accepted'')
                  (sw\<lparr>status := Accepted\<rparr>)))"

definition reject :: "swap \<Rightarrow> uid \<Rightarrow> time \<Rightarrow> thrown + swap" where
  "reject sw userId now =
     (if status sw \<noteq> Pending then Inl NotPending
      else if recipient sw \<noteq> userId then Inl OnlyRecipient
      else Inr (push (entry RejectedA (Some userId) now ''Swap rejected'')
                  (sw\<lparr>status := Rejected\<rparr>)))"

definition markShipped :: "swap \<Rightarrow> uid \<Rightarrow> string option \<Rightarrow> time \<Rightarrow> thrown + swap" where
  "markShipped sw userId trackingNumber now =
     (if status sw \<noteq> Accepted then Inl NotAccepted
      else if initiator sw = userId then
        Inr (push (entry ShippedA (Some userId) now ''Initiator shipped item'')
               (sw\<lparr>shipping := (shipping sw)\<lparr>initiatorTracking := trackingNumber,
                                              initiatorShippedAt := Some now\<rparr>\<rparr>))
      else if recipient sw = userId then
        Inr (push (entry ShippedA (Some userId) now ''Recipient shipped item'')
               (sw\<lparr>shipping := (shipping sw)\<lparr>recipientTracking := trackingNumber,
                                              recipientShippedAt := Some now\<rparr>\<rparr>))
      else Inl UserNotParty)"

text \<open>
  The last step of \<open>markReceived\<close>: both received dates set makes the swap completed, with
  a timeline entry that has no user.
\<close>

definition complete_if_both :: "time \<Rightarrow> swap \<Rightarrow> swap" where
  "complete_if_both now sw =
     (if initiatorReceivedAt (shipping sw) \<noteq> None \<and> recipientReceivedAt (shipping sw) \<noteq> None
      then push (entry CompletedA None now ''Swap completed successfully'')
             (sw\<lparr>status := Completed\<rparr>)
      else sw)"

definition markReceived :: "swap \<Rightarrow> uid \<Rightarrow> time \<Rightarrow> thrown + swap" where
  "markReceived sw userId now =
     (if status sw \<noteq> Accepted then Inl NotAccepted
      else if initiator sw = userId then
        Inr (complete_if_both now
               (push (entry ReceivedA (Some userId) now ''Initiator received item'')
                  (sw\<lparr>shipping := (shipping sw)\<lparr>initiatorReceivedAt := Some now\<rparr>\<rparr>)))
      else if recipient sw = userId then
        Inr (complete_if_both now
               (push (entry ReceivedA (Some userId) now ''Recipient received item'')
                  (sw\<lparr>shipping := (shipping sw)\<lparr>recipientReceivedAt := Some now\<rparr>\<rparr>)))
      else Inl UserNotParty)"

text \<open>\<open>if (this.initiatorRating.rating)\<close>: a rating slot counts once its number is truthy.\<close>

definition rated :: "rating option \<Rightarrow> bool" where
  "rated r = (case r of None \<Rightarrow> False | Some x \<Rightarrow> rating_value x \<noteq> 0)"

definition addRating :: "swap \<Rightarrow> uid \<Rightarrow> int \<Rightarrow> string option \<Rightarrow> time \<Rightarrow> thrown + swap" where
  "addRating sw userId r c now =
     (if status sw \<noteq> Completed then Inl NotCompleted
      else if initiator sw = userId then
        (if rated (initiatorRating sw) then Inl InitiatorAlreadyRated
         else Inr (sw\<lparr>initiatorRating :=
                        Some \<lparr>rating_value = r, comment = c, createdAt = now\<rparr>\<rparr>))
      else if recipient sw = userId then
        (if rated (recipientRating sw) then Inl RecipientAlreadyRated
         else Inr (sw\<lparr>recipientRating :=
                        Some \<lparr>rating_value = r, comment = c, createdAt = now\<rparr>\<rparr>))
      else Inl UserNotParty)"

fun reason_string :: "reason \<Rightarrow> string" where
  "reason_string ItemNotAsDescribed = ''item-not-as-described''"
| "reason_string Damaged = ''damaged''"
| "reason_string NotReceived = ''not-received''"
| "reason_string Other = ''other''"

definition raiseDispute :: "swap \<Rightarrow> uid \<Rightarrow> reason \<Rightarrow> string \<Rightarrow> time \<Rightarrow> thrown + swap" where
  "raiseDispute sw userId r d now =
     (if status sw \<noteq> Accepted \<and> status sw \<noteq> Completed then Inl NotDisputable
      else if dispute_status (dispute sw) = Open then Inl DisputeExists
      else Inr (push (entry DisputedA (Some userId) now (''Dispute raised: '' @ reason_string r))
                  (sw\<lparr>dispute := \<lparr>raisedBy = Some userId, dispute_reason = Some r,
                                   description = Some d, dispute_status = Open,
                                   adminNotes = None, resolvedBy = None,
                                   resolvedAt = None\<rparr>\<rparr>)))"

section \<open>User.checkMilestones (models/User.js)\<close>

definition milestones :: "(metric \<times> (int \<times> int) list) list" where
  "milestones =
     [(ItemsListed, [(5, 50), (10, 100), (25, 250), (50, 500)]),
      (SwapsCompleted, [(3, 75), (10, 200), (25, 500), (50, 1000)]),
      (TotalPointsEarned, [(100, 100), (500, 250), (1000, 500), (2500, 1000)])]"

fun stat :: "metric \<Rightarrow> stats \<Rightarrow> int" where
  "stat ItemsListed st = itemsListed st"
| "stat SwapsCompleted st = swapsCompleted st"
| "stat TotalPointsEarned st = totalPointsEarned st"

text \<open>
  The inner loop over the levels of one milestone. The accumulator is the pair of
  \<open>totalBonus\<close> and \<open>this.achievements\<close>.
\<close>

fun check_levels ::
  "metric \<Rightarrow> int \<Rightarrow> (int \<times> int) list \<Rightarrow> int \<times> (metric \<times> int) list
   \<Rightarrow> int \<times> (metric \<times> int) list" where
  "check_levels m currentValue [] acc = acc"
| "check_levels m currentValue ((level, pts) # ls) (totalBonus, ach) =
     check_levels m currentValue ls
       (if level \<le> currentValue \<and> (m, level) \<notin> set ach
        then (totalBonus + pts, ach @ [(m, level)])
        else (totalBonus, ach))"

text \<open>The outer loop over the milestones.\<close>

fun check_all ::
  "stats \<Rightarrow> (metric \<times> (int \<times> int) list) list \<Rightarrow> int \<times> (metric \<times> int) list
   \<Rightarrow> int \<times> (metric \<times> int) list" where
  "check_all st [] acc = acc"
| "check_all st ((m, ls) # ms) acc = check_all st ms (check_levels m (stat m st) ls acc)"

text \<open>
  \<open>checkMilestones\<close> runs on a user document \<open>doc\<close> read earlier. With a bonus it sets
  the document's points, lifetime-earned counter and achievements and saves it: the save
  validates the modified points against the schema's \<open>min: 0\<close> and then writes the three
  modified paths to the stored user. Without a bonus nothing is saved.
\<close>

definition checkMilestones :: "uid \<Rightarrow> user \<Rightarrow> state \<Rightarrow> thrown + state" where
  "checkMilestones u doc s =
     (case check_all (stats doc) milestones (0, achievements doc) of
        (totalBonus, ach) \<Rightarrow>
          if 0 < totalBonus then
            (if points doc + totalBonus < 0 then Inl ValidationError
             else
               Inr (case users s u of
                      None \<Rightarrow> s
                    | Some usr \<Rightarrow>
                        s\<lparr>users := (users s)
                             (u \<mapsto> usr\<lparr>points := points doc + totalBonus,
                                        stats := (stats usr)
                                          \<lparr>totalPointsEarned :=
                                             totalPointsEarned (stats doc) + totalBonus\<rparr>,
                                        achievements := ach\<rparr>)\<rparr>))
          else Inr s)"

section \<open>Store access\<close>

text \<open>
  \<open>Model.findByIdAndUpdate\<close> changes the document when it exists and does nothing
  otherwise. \<open>$inc\<close> is not validated, so the schema's \<open>min: 0\<close> on a user's points
  does not stop it.
\<close>

definition update_user :: "uid \<Rightarrow> (user \<Rightarrow> user) \<Rightarrow> state \<Rightarrow> state" where
  "update_user u f s =
     (case users s u of None \<Rightarrow> s | Some usr \<Rightarrow> s\<lparr>users := (users s)(u \<mapsto> f usr)\<rparr>)"

definition update_item :: "iid \<Rightarrow> (item \<Rightarrow> item) \<Rightarrow> state \<Rightarrow> state" where
  "update_item i f s =
     (case items s i of None \<Rightarrow> s | Some it \<Rightarrow> s\<lparr>items := (items s)(i \<mapsto> f it)\<rparr>)"

text \<open>\<open>$inc: { points: n, 'stats.totalPointsEarned': n }\<close>\<close>

definition earn :: "int \<Rightarrow> user \<Rightarrow> user" where
  "earn n u = u\<lparr>points := points u + n,
               stats := (stats u)\<lparr>totalPointsEarned := totalPointsEarned (stats u) + n\<rparr>\<rparr>"

text \<open>\<open>$inc: { points: -n, 'stats.totalPointsSpent': n }\<close>\<close>

definition spend :: "int \<Rightarrow> user \<Rightarrow> user" where
  "spend n u = u\<lparr>points := points u - n,
                stats := (stats u)\<lparr>totalPointsSpent := totalPointsSpent (stats u) + n\<rparr>\<rparr>"

definition set_status :: "item_status \<Rightarrow> item \<Rightarrow> item" where
  "set_status st it = it\<lparr>item_status := st\<rparr>"

definition findById :: "state \<Rightarrow> sid \<Rightarrow> swap option" where
  "findById s i = (if i < length (swaps s) then Some (swaps s ! i) else None)"

definition save :: "sid \<Rightarrow> swap \<Rightarrow> state \<Rightarrow> state" where
  "save i sw s = s\<lparr>swaps := (swaps s)[i := sw]\<rparr>"

text \<open>
  The \<open>protect\<close> middleware (middleware/auth.js): the caller is a stored user whose
  account is active. \<open>admin\<close> asks for the admin role on top.
\<close>

definition protect :: "state \<Rightarrow> uid \<Rightarrow> error + user" where
  "protect s u =
     (case users s u of
        None \<Rightarrow> Inl Unauthorized
      | Some usr \<Rightarrow> if account_status usr \<noteq> AccountActive then Inl Unauthorized else Inr usr)"

definition admin :: "user \<Rightarrow> bool" where
  "admin usr = (role usr = Admin)"

text \<open>
  \<open>Swap.countDocuments({ $or: [{ initiator: u }, { recipient: u }], status: 'completed' })\<close>
\<close>

definition completed_count :: "state \<Rightarrow> uid \<Rightarrow> nat" where
  "completed_count s u =
     length (filter (\<lambda>sw. (initiator sw = u \<or> recipient sw = u) \<and> status sw = Completed)
               (swaps s))"

text \<open>
  \<open>Swap.countDocuments({ initiator: u, type: 'redeem', status: 'completed' })\<close>
\<close>

definition purchase_count :: "state \<Rightarrow> uid \<Rightarrow> nat" where
  "purchase_count s u =
     length (filter (\<lambda>sw. initiator sw = u \<and> swap_type sw = Redeem \<and> status sw = Completed)
               (swaps s))"

text \<open>
  \<open>Swap.findOne({ recipientItem, status: 'pending', expiresAt: { $gt: new Date() } })\<close>
\<close>

definition unexpired_pending :: "time \<Rightarrow> iid \<Rightarrow> swap \<Rightarrow> bool" where
  "unexpired_pending now i sw \<longleftrightarrow> recipientItem sw = i \<and> status sw = Pending \<and> now < expiresAt sw"

definition existingSwap :: "state \<Rightarrow> iid \<Rightarrow> time \<Rightarrow> swap option" where
  "existingSwap s i now = find (unexpired_pending now i) (swaps s)"

section \<open>Creating a Swap document\<close>

text \<open>\<open>7 * 24 * 60 * 60 * 1000\<close>, the default of \<open>expiresAt\<close> after \<open>Date.now()\<close>.\<close>

definition week :: nat where
  "week = 7 * 24 * 60 * 60 * 1000"

definition no_shipping :: shipping where
  "no_shipping = \<lparr>initiatorTracking = None, recipientTracking = None,
                  initiatorShippedAt = None, recipientShippedAt = None,
                  initiatorReceivedAt = None, recipientReceivedAt = None\<rparr>"

text \<open>
  The nested path \<open>dispute\<close> of a new document holds only the schema default of
  \<open>dispute.status\<close>, which is \<open>'open'\<close>.
\<close>

definition default_dispute :: dispute where
  "default_dispute = \<lparr>raisedBy = None, dispute_reason = None, description = None,
                      dispute_status = Open, adminNotes = None, resolvedBy = None,
                      resolvedAt = None\<rparr>"

text \<open>The pre-save hook: a new document gets a \<open>created\<close> entry of its initiator.\<close>

definition pre_save_new :: "time \<Rightarrow> swap \<Rightarrow> swap" where
  "pre_save_new now sw = push (entry CreatedA (Some (initiator sw)) now ''Swap request created'') sw"

text \<open>
  \<open>Swap.create\<close> / \<open>new Swap(...).save()\<close>: the given fields, the schema defaults for the
  others, then the pre-save hook.
\<close>

definition new_Swap ::
  "uid \<Rightarrow> uid \<Rightarrow> iid \<Rightarrow> iid option \<Rightarrow> swap_type \<Rightarrow> swap_status \<Rightarrow> int \<Rightarrow> string option
   \<Rightarrow> timeline_entry list \<Rightarrow> time \<Rightarrow> swap" where
  "new_Swap ini rcp ritem iitem ty st pts msg entries now =
     pre_save_new now
       \<lparr>initiator = ini, recipient = rcp, initiatorItem = iitem, recipientItem = ritem,
        swap_type = ty, status = st, swap_points = pts, message = msg,
        initiatorRating = None, recipientRating = None, shipping = no_shipping,
        dispute = default_dispute, timeline = entries, expiresAt = now + week\<rparr>"

section \<open>Routes of the exchange engine\<close>

text \<open>
  Each route takes the time of the request, the authenticated caller and the request's
  parameters after the validators' sanitising, and returns the failure response or the
  store after the request. A thrown error reaches the route's \<open>catch\<close> before anything
  is written.
\<close>

subsection \<open>POST /api/swaps\<close>

text \<open>
  The branch on \<open>type\<close>: a swap needs an active item of the caller, a redeem needs the
  caller's points to cover the recipient item's points.
\<close>

definition check_offer ::
  "state \<Rightarrow> uid \<Rightarrow> user \<Rightarrow> swap_type \<Rightarrow> iid option \<Rightarrow> item \<Rightarrow> error option" where
  "check_offer s u usr ty initiatorItemId recipientItemDoc =
     (if ty = SwapT then
        (case initiatorItemId of
           None \<Rightarrow> Some InitiatorItemRequired
         | Some i \<Rightarrow>
             (case items s i of
                None \<Rightarrow> Some InitiatorItemNotFound
              | Some initiatorItemDoc \<Rightarrow>
                  if owner initiatorItemDoc \<noteq> u then Some InitiatorItemNotOwned
                  else if item_status initiatorItemDoc \<noteq> Active
                    then Some InitiatorItemUnavailable
                  else None))
      else if points usr < item_points recipientItemDoc then Some InsufficientPoints
      else None)"

definition post_swaps ::
  "time \<Rightarrow> uid \<Rightarrow> iid \<Rightarrow> swap_type \<Rightarrow> string option \<Rightarrow> iid option \<Rightarrow> state
   \<Rightarrow> error + state" where
  "post_swaps now u recipientItemId ty msg initiatorItemId s =
     (case protect s u of
        Inl e \<Rightarrow> Inl e
      | Inr usr \<Rightarrow>
          if (case msg of None \<Rightarrow> False | Some m \<Rightarrow> 500 < length m) then Inl ValidationFailed
          else
            (case items s recipientItemId of
               None \<Rightarrow> Inl ItemNotFound
             | Some recipientItemDoc \<Rightarrow>
                 if item_status recipientItemDoc \<noteq> Active then Inl ItemUnavailable
                 else if owner recipientItemDoc = u then Inl SelfTradeNotAllowed
                 else
                   (case check_offer s u usr ty initiatorItemId recipientItemDoc of
                      Some e \<Rightarrow> Inl e
                    | None \<Rightarrow>
                        (case existingSwap s recipientItemId now of
                           Some _ \<Rightarrow> Inl DuplicateActiveRequest
                         | None \<Rightarrow>
                             if ty = Redeem \<and> item_points recipientItemDoc < 0
                             then Inl (ServerError ValidationError)
                             else
                             Inr (s\<lparr>swaps := swaps s @
                                    [new_Swap u (owner recipientItemDoc) recipientItemId
                                       (if ty = SwapT then initiatorItemId else None) ty Pending
                                       (if ty = Redeem then item_points recipientItemDoc else 0)
                                       msg [] now]\<rparr>)))))"

subsection \<open>PUT /api/swaps/:id/accept\<close>

text \<open>\<open>itemDoc?.points || 0\<close> for an item id that may be absent or may name no item.\<close>

definition points_or_0 :: "state \<Rightarrow> iid option \<Rightarrow> int" where
  "points_or_0 s i =
     (case i of
        None \<Rightarrow> 0
      | Some j \<Rightarrow> (case items s j of None \<Rightarrow> 0 | Some it \<Rightarrow> item_points it))"

definition sell_items :: "swap \<Rightarrow> state \<Rightarrow> state" where
  "sell_items sw s =
     (let s1 = update_item (recipientItem sw) (set_status Sold) s
      in case initiatorItem sw of
           None \<Rightarrow> s1
         | Some i \<Rightarrow> update_item i (set_status Sold) s1)"

definition pointsCredit :: "swap \<Rightarrow> state \<Rightarrow> int" where
  "pointsCredit sw s =
     (points_or_0 s (Some (recipientItem sw)) + points_or_0 s (initiatorItem sw)) div 4"

definition accept_points :: "swap \<Rightarrow> state \<Rightarrow> state" where
  "accept_points sw s =
     (if swap_type sw = Redeem then
        update_user (recipient sw) (earn (swap_points sw))
          (update_user (initiator sw) (spend (swap_points sw)) s)
      else
        update_user (recipient sw) (earn (pointsCredit sw s))
          (update_user (initiator sw) (earn (pointsCredit sw s)) s))"

definition put_swaps_accept :: "time \<Rightarrow> uid \<Rightarrow> sid \<Rightarrow> state \<Rightarrow> error + state" where
  "put_swaps_accept now u i s =
     (case protect s u of
        Inl e \<Rightarrow> Inl e
      | Inr usr \<Rightarrow>
          (case findById s i of
             None \<Rightarrow> Inl SwapNotFound
           | Some sw \<Rightarrow>
               if recipient sw \<noteq> u then Inl NotAuthorized
               else
                 (case accept sw u now of
                    Inl x \<Rightarrow> Inl (ServerError x)
                  | Inr sw' \<Rightarrow> Inr (accept_points sw' (sell_items sw' (save i sw' s))))))"

subsection \<open>PUT /api/swaps/:id/reject\<close>

definition put_swaps_reject :: "time \<Rightarrow> uid \<Rightarrow> sid \<Rightarrow> state \<Rightarrow> error + state" where
  "put_swaps_reject now u i s =
     (case protect s u of
        Inl e \<Rightarrow> Inl e
      | Inr usr \<Rightarrow>
          (case findById s i of
             None \<Rightarrow> Inl SwapNotFound
           | Some sw \<Rightarrow>
               if recipient sw \<noteq> u then Inl NotAuthorized
               else
                 (case reject sw u now of
                    Inl x \<Rightarrow> Inl (ServerError x)
                  | Inr sw' \<Rightarrow> Inr (save i sw' s))))"

subsection \<open>PUT /api/swaps/:id/ship\<close>

definition put_swaps_ship ::
  "time \<Rightarrow> uid \<Rightarrow> sid \<Rightarrow> string option \<Rightarrow> state \<Rightarrow> error + state" where
  "put_swaps_ship now u i trackingNumber s =
     (case protect s u of
        Inl e \<Rightarrow> Inl e
      | Inr usr \<Rightarrow>
          if (case trackingNumber of None \<Rightarrow> False | Some n \<Rightarrow> 100 < length n)
          then Inl ValidationFailed
          else
            (case findById s i of
               None \<Rightarrow> Inl SwapNotFound
             | Some sw \<Rightarrow>
                 if initiator sw \<noteq> u \<and> recipient sw \<noteq> u then Inl NotAuthorized
                 else
                   (case markShipped sw u trackingNumber now of
                      Inl x \<Rightarrow> Inl (ServerError x)
                    | Inr sw' \<Rightarrow> Inr (save i sw' s))))"

subsection \<open>PUT /api/swaps/:id/receive\<close>

text \<open>
  The \<open>$inc\<close> of one party once the swap is completed: 20 points, and 50 more when the
  count of the party's completed swaps, taken after the save, is 1.
\<close>

definition completion_inc :: "nat \<Rightarrow> user \<Rightarrow> user" where
  "completion_inc swapCount usr =
     (let bonus = 20 + (if swapCount = 1 then 50 else 0)
      in usr\<lparr>points := points usr + bonus,
              stats := (stats usr)\<lparr>swapsCompleted := swapsCompleted (stats usr) + 1,
                                    totalPointsEarned := totalPointsEarned (stats usr) + bonus\<rparr>\<rparr>)"

text \<open>
  Both users are read after the two increments and before either \<open>checkMilestones\<close>.
  A \<open>checkMilestones\<close> that throws ends the route with a 500 response; the swap, the
  increments and an earlier milestone save are written by then and stay.
\<close>

definition completion_rewards :: "swap \<Rightarrow> state \<Rightarrow> state" where
  "completion_rewards sw s =
     (let initiatorSwapCount = completed_count s (initiator sw);
          recipientSwapCount = completed_count s (recipient sw);
          s1 = update_user (initiator sw) (completion_inc initiatorSwapCount) s;
          s2 = update_user (recipient sw) (completion_inc recipientSwapCount) s1;
          initiatorDoc = users s2 (initiator sw);
          recipientDoc = users s2 (recipient sw)
      in case (case initiatorDoc of
                 None \<Rightarrow> Inr s2
               | Some d \<Rightarrow> checkMilestones (initiator sw) d s2) of
           Inl x \<Rightarrow> s2
         | Inr s3 \<Rightarrow>
             (case recipientDoc of
                None \<Rightarrow> s3
              | Some d \<Rightarrow>
                  (case checkMilestones (recipient sw) d s3 of
                     Inl x \<Rightarrow> s3
                   | Inr s4 \<Rightarrow> s4)))"

text \<open>
  Once the swap is saved the result is the store with everything the route has written,
  also when a milestone save throws afterwards.
\<close>

definition put_swaps_receive :: "time \<Rightarrow> uid \<Rightarrow> sid \<Rightarrow> state \<Rightarrow> error + state" where
  "put_swaps_receive now u i s =
     (case protect s u of
        Inl e \<Rightarrow> Inl e
      | Inr usr \<Rightarrow>
          (case findById s i of
             None \<Rightarrow> Inl SwapNotFound
           | Some sw \<Rightarrow>
               if initiator sw \<noteq> u \<and> recipient sw \<noteq> u then Inl NotAuthorized
               else
                 (case markReceived sw u now of
                    Inl x \<Rightarrow> Inl (ServerError x)
                  | Inr sw' \<Rightarrow>
                      if status sw' = Completed
                      then Inr (completion_rewards sw' (save i sw' s))
                      else Inr (save i sw' s))))"

subsection \<open>POST /api/swaps/:id/rate\<close>

definition post_swaps_rate ::
  "time \<Rightarrow> uid \<Rightarrow> sid \<Rightarrow> int \<Rightarrow> string option \<Rightarrow> state \<Rightarrow> error + state" where
  "post_swaps_rate now u i r c s =
     (case protect s u of
        Inl e \<Rightarrow> Inl e
      | Inr usr \<Rightarrow>
          if r < 1 \<or> 5 < r \<or> (case c of None \<Rightarrow> False | Some m \<Rightarrow> 200 < length m)
          then Inl ValidationFailed
          else
            (case findById s i of
               None \<Rightarrow> Inl SwapNotFound
             | Some sw \<Rightarrow>
                 if initiator sw \<noteq> u \<and> recipient sw \<noteq> u then Inl NotAuthorized
                 else
                   (case addRating sw u r c now of
                      Inl x \<Rightarrow>
                        if x = InitiatorAlreadyRated \<or> x = RecipientAlreadyRated
                        then Inl AlreadyRated else Inl (ServerError x)
                    | Inr sw' \<Rightarrow> Inr (save i sw' s))))"

subsection \<open>POST /api/swaps/:id/dispute\<close>

definition post_swaps_dispute ::
  "time \<Rightarrow> uid \<Rightarrow> sid \<Rightarrow> reason \<Rightarrow> string \<Rightarrow> state \<Rightarrow> error + state" where
  "post_swaps_dispute now u i r d s =
     (case protect s u of
        Inl e \<Rightarrow> Inl e
      | Inr usr \<Rightarrow>
          if length d < 10 \<or> 500 < length d then Inl ValidationFailed
          else
            (case findById s i of
               None \<Rightarrow> Inl SwapNotFound
             | Some sw \<Rightarrow>
                 if initiator sw \<noteq> u \<and> recipient sw \<noteq> u then Inl NotAuthorized
                 else
                   (case raiseDispute sw u r d now of
                      Inl x \<Rightarrow>
                        if x = DisputeExists then Inl DisputeAlreadyOpen
                        else Inl (ServerError x)
                    | Inr sw' \<Rightarrow> Inr (save i sw' s))))"

subsection \<open>PUT /api/admin/swaps/:id/resolve-dispute\<close>

datatype resolution = FavorInitiator | FavorRecipient | PartialRefund | Cancel

definition reactivate_items :: "swap \<Rightarrow> state \<Rightarrow> state" where
  "reactivate_items sw s =
     (let s1 = update_item (recipientItem sw) (set_status Active) s
      in case initiatorItem sw of
           None \<Rightarrow> s1
         | Some i \<Rightarrow> update_item i (set_status Active) s1)"

text \<open>\<open>$inc: { points: refundAmount }\<close>, with \<open>Math.floor(swap.points * 0.5)\<close>.\<close>

definition refund :: "int \<Rightarrow> user \<Rightarrow> user" where
  "refund n usr = usr\<lparr>points := points usr + n\<rparr>"

definition refundAmount :: "swap \<Rightarrow> int" where
  "refundAmount sw = swap_points sw div 2"

text \<open>The \<open>switch\<close> on the resolution, after the dispute fields are set.\<close>

fun resolve :: "resolution \<Rightarrow> sid \<Rightarrow> swap \<Rightarrow> state \<Rightarrow> state" where
  "resolve FavorInitiator i sw s = save i (sw\<lparr>status := Cancelled\<rparr>) (reactivate_items sw s)"
| "resolve FavorRecipient i sw s = save i (sw\<lparr>status := Completed\<rparr>) s"
| "resolve PartialRefund i sw s =
     save i (sw\<lparr>status := Completed\<rparr>)
       (if swap_type sw = Redeem
        then update_user (initiator sw) (refund (refundAmount sw)) s
        else s)"
| "resolve Cancel i sw s = save i (sw\<lparr>status := Cancelled\<rparr>) (reactivate_items sw s)"

definition put_admin_swaps_resolve_dispute ::
  "time \<Rightarrow> uid \<Rightarrow> sid \<Rightarrow> resolution \<Rightarrow> string \<Rightarrow> state \<Rightarrow> error + state" where
  "put_admin_swaps_resolve_dispute now u i res notes s =
     (case protect s u of
        Inl e \<Rightarrow> Inl e
      | Inr usr \<Rightarrow>
          if \<not> admin usr then Inl AdminRequired
          else if length notes < 5 \<or> 500 < length notes then Inl ValidationFailed
          else
            (case findById s i of
               None \<Rightarrow> Inl SwapNotFound
             | Some sw \<Rightarrow>
                 if dispute_status (dispute sw) \<noteq> Open then Inl DisputeNotOpen
                 else
                   Inr (resolve res i
                          (sw\<lparr>dispute := (dispute sw)\<lparr>dispute_status := Resolved,
                                                       adminNotes := Some notes,
                                                       resolvedBy := Some u,
                                                       resolvedAt := Some now\<rparr>\<rparr>)
                          s)))"

subsection \<open>POST /api/items/:id/buy\<close>

text \<open>
  The purchase record is a Swap built as completed with two timeline entries; saving it
  validates its points against the schema's \<open>min: 0\<close> and runs the pre-save hook as for
  any new Swap. The writes are in one transaction, so a save that throws leaves nothing
  written. The \<open>completionBonus\<close> that the route declares is never added; the
  first-purchase bonus of 25 is.
\<close>

definition purchase_record :: "time \<Rightarrow> uid \<Rightarrow> iid \<Rightarrow> item \<Rightarrow> swap" where
  "purchase_record now u i it =
     new_Swap u (owner it) i None Redeem Completed (item_points it)
       (Some ''Direct purchase with points'')
       [entry CreatedA (Some u) now ''Direct purchase with points'',
        entry CompletedA (Some u) now ''Purchase completed'']
       now"

definition first_purchase_bonus :: "uid \<Rightarrow> state \<Rightarrow> state" where
  "first_purchase_bonus u s =
     (if purchase_count s u = 1 then update_user u (earn 25) s else s)"

definition post_items_buy :: "time \<Rightarrow> uid \<Rightarrow> iid \<Rightarrow> state \<Rightarrow> error + state" where
  "post_items_buy now u i s =
     (case protect s u of
        Inl e \<Rightarrow> Inl e
      | Inr usr \<Rightarrow>
          (case items s i of
             None \<Rightarrow> Inl ItemNotFound
           | Some it \<Rightarrow>
               if item_status it \<noteq> Active then Inl ItemUnavailable
               else if \<not> isRedeemable it then Inl NotRedeemable
               else if users s (owner it) = None then Inl (ServerError NullOwner)
               else if owner it = u then Inl SelfTradeNotAllowed
               else if points usr < item_points it then Inl InsufficientPoints
               else if item_points it < 0 then Inl (ServerError ValidationError)
               else
                 (let s1 = update_user u (spend (item_points it)) s;
                      s2 = update_user (owner it) (earn (item_points it)) s1;
                      s3 = update_item i (set_status Sold) s2;
                      s4 = s3\<lparr>swaps := swaps s3 @ [purchase_record now u i it]\<rparr>
                  in Inr (first_purchase_bonus u s4))))"

subsection \<open>DELETE /api/items/:id\<close>

text \<open>
  After the ownership check the source has only the comment
  \<open>// Check if item has active swaps  // TODO: Add check for active swaps\<close>
  and goes on to delete the item.
\<close>

definition forget_listing :: "user \<Rightarrow> user" where
  "forget_listing usr = usr\<lparr>stats := (stats usr)\<lparr>itemsListed := itemsListed (stats usr) - 1\<rparr>\<rparr>"

definition delete_items :: "uid \<Rightarrow> iid \<Rightarrow> state \<Rightarrow> error + state" where
  "delete_items u i s =
     (case protect s u of
        Inl e \<Rightarrow> Inl e
      | Inr usr \<Rightarrow>
          (case items s i of
             None \<Rightarrow> Inl ItemNotFound
           | Some it \<Rightarrow>
               if owner it \<noteq> u then Inl NotAuthorized
               else Inr (update_user u forget_listing (s\<lparr>items := (items s)(i := None)\<rparr>))))"

section \<open>Requests and runs\<close>

datatype request =
  CreateExchange uid iid swap_type "string option" "iid option"
  | AcceptExchange uid sid
  | RejectExchange uid sid
  | MarkShipped uid sid "string option"
  | MarkReceived uid sid
  | RateExchange uid sid int "string option"
  | RaiseDispute uid sid reason string
  | ResolveDispute uid sid resolution string
  | PurchaseWithPoints uid iid
  | DeleteItem uid iid

fun handle :: "time \<Rightarrow> request \<Rightarrow> state \<Rightarrow> error + state" where
  "handle now (CreateExchange u i ty msg j) s = post_swaps now u i ty msg j s"
| "handle now (AcceptExchange u i) s = put_swaps_accept now u i s"
| "handle now (RejectExchange u i) s = put_swaps_reject now u i s"
| "handle now (MarkShipped u i n) s = put_swaps_ship now u i n s"
| "handle now (MarkReceived u i) s = put_swaps_receive now u i s"
| "handle now (RateExchange u i r c) s = post_swaps_rate now u i r c s"
| "handle now (RaiseDispute u i r d) s = post_swaps_dispute now u i r d s"
| "handle now (ResolveDispute u i res notes) s = put_admin_swaps_resolve_dispute now u i res notes s"
| "handle now (PurchaseWithPoints u i) s = post_items_buy now u i s"
| "handle now (DeleteItem u i) s = delete_items u i s"

text \<open>A failed request leaves the store as it was.\<close>

definition step :: "time \<Rightarrow> request \<Rightarrow> state \<Rightarrow> state" where
  "step now req s = (case handle now req s of Inl e \<Rightarrow> s | Inr s' \<Rightarrow> s')"

text \<open>Requests arrive with their times; a run serves them in order.\<close>

fun run :: "(time \<times> request) list \<Rightarrow> state \<Rightarrow> state" where
  "run [] s = s"
| "run ((now, req) # rs) s = run rs (step now req s)"

section \<open>Observations and example stores\<close>

definition balance :: "state \<Rightarrow> uid \<Rightarrow> int option" where
  "balance s u = map_option points (users s u)"

definition earned :: "state \<Rightarrow> uid \<Rightarrow> int option" where
  "earned s u = map_option (\<lambda>usr. totalPointsEarned (stats usr)) (users s u)"

definition spent :: "state \<Rightarrow> uid \<Rightarrow> int option" where
  "spent s u = map_option (\<lambda>usr. totalPointsSpent (stats usr)) (users s u)"

definition availability :: "state \<Rightarrow> iid \<Rightarrow> item_status option" where
  "availability s i = map_option item_status (items s i)"

text \<open>The ledger invariant of one member: the balance is the lifetime difference and is not negative.\<close>

definition ledger_ok :: "user \<Rightarrow> bool" where
  "ledger_ok usr \<longleftrightarrow>
     0 \<le> points usr \<and> points usr = totalPointsEarned (stats usr) - totalPointsSpent (stats usr)"

text \<open>An active member with a balance and lifetime counters, and nothing else on record.\<close>

definition member :: "int \<Rightarrow> int \<Rightarrow> int \<Rightarrow> user" where
  "member p e sp =
     \<lparr>points = p, role = UserRole, account_status = AccountActive,
      stats = \<lparr>itemsListed = 0, swapsCompleted = 0, totalPointsEarned = e,
               totalPointsSpent = sp\<rparr>,
      achievements = []\<rparr>"

definition arbiter :: user where
  "arbiter = (member 0 0 0)\<lparr>role := Admin\<rparr>"

text \<open>An active, redeemable item of an owner.\<close>

definition listing :: "uid \<Rightarrow> int \<Rightarrow> item" where
  "listing u p = \<lparr>owner = u, item_points = p, item_status = Active, isRedeemable = True\<rparr>"

text \<open>
  Scenario B: member 1 holds 40 points (lifetime earned \<open>e\<close>), member 2 holds nothing and
  owns item 10, worth 40 points.
\<close>

definition scenarioB :: "int \<Rightarrow> state" where
  "scenarioB e =
     \<lparr>users = [1 \<mapsto> member 40 e 0, 2 \<mapsto> member 0 0 0],
      items = [10 \<mapsto> listing 2 40],
      swaps = []\<rparr>"

definition scenarioB_requests :: "time \<Rightarrow> time \<Rightarrow> time \<Rightarrow> time \<Rightarrow> (time \<times> request) list" where
  "scenarioB_requests t0 t1 t2 t3 =
     [(t0, CreateExchange 1 10 Redeem None None),
      (t1, AcceptExchange 2 0),
      (t2, MarkReceived 1 0),
      (t3, MarkReceived 2 0)]"

text \<open>
  Member 1 holds 40 points; members 2 and 3 own items 10 and 11, each worth 40 points;
  member 9 is an administrator.
\<close>

definition two_offers :: state where
  "two_offers =
     \<lparr>users = [1 \<mapsto> member 40 40 0, 2 \<mapsto> member 0 0 0, 3 \<mapsto> member 0 0 0, 9 \<mapsto> arbiter],
      items = [10 \<mapsto> listing 2 40, 11 \<mapsto> listing 3 40],
      swaps = []\<rparr>"

text \<open>Member 1 asks for both items while holding 40 points, and both owners accept.\<close>

definition overdraw_requests :: "(time \<times> request) list" where
  "overdraw_requests =
     [(0, CreateExchange 1 10 Redeem None None),
      (1, CreateExchange 1 11 Redeem None None),
      (2, AcceptExchange 2 0),
      (3, AcceptExchange 3 1)]"

text \<open>
  Members 1 and 3 each hold 40 points and ask for item 10 of member 2, the second one
  just after the first request's week has passed.
\<close>

definition two_requesters :: state where
  "two_requesters =
     \<lparr>users = [1 \<mapsto> member 40 40 0, 2 \<mapsto> member 0 0 0, 3 \<mapsto> member 40 40 0],
      items = [10 \<mapsto> listing 2 40],
      swaps = []\<rparr>"

text \<open>An accepted redeem of item 10 between members 1 and 2, nothing received yet.\<close>

definition accepted_swap :: swap where
  "accepted_swap =
     \<lparr>initiator = 1, recipient = 2, initiatorItem = None, recipientItem = 10,
      swap_type = Redeem, status = Accepted, swap_points = 40, message = None,
      initiatorRating = None, recipientRating = None, shipping = no_shipping,
      dispute = default_dispute,
      timeline = [entry CreatedA (Some 1) 0 ''Swap request created'',
                  entry AcceptedA (Some 2) 1 ''Swap accepted''],
      expiresAt = week\<rparr>"

text \<open>
  The store after the accept of that swap, with a dispute that member 1 has raised:
  member 1 has spent its 40 points, member 2 has earned them, item 10 is sold.
\<close>

definition disputed_swap :: swap where
  "disputed_swap =
     accepted_swap
       \<lparr>dispute := \<lparr>raisedBy = Some 1, dispute_reason = Some NotReceived,
                     description = Some ''nothing arrived'', dispute_status = Open,
                     adminNotes = None, resolvedBy = None, resolvedAt = None\<rparr>,
        timeline := timeline accepted_swap @
                    [entry DisputedA (Some 1) 2 ''Dispute raised: not-received'']\<rparr>"

definition disputed_store :: state where
  "disputed_store =
     \<lparr>users = [1 \<mapsto> member 0 40 40, 2 \<mapsto> member 40 40 0, 9 \<mapsto> arbiter],
      items = [10 \<mapsto> (listing 2 40)\<lparr>item_status := Sold\<rparr>],
      swaps = [disputed_swap]\<rparr>"

text \<open>The swap after member 1 has marked it received at time 100, and again at time 200.\<close>

definition received_once :: swap where
  "received_once =
     accepted_swap
       \<lparr>shipping := no_shipping\<lparr>initiatorReceivedAt := Some 100\<rparr>,
        timeline := timeline accepted_swap @
                    [entry ReceivedA (Some 1) 100 ''Initiator received item'']\<rparr>"

definition received_twice :: swap where
  "received_twice =
     received_once
       \<lparr>shipping := no_shipping\<lparr>initiatorReceivedAt := Some 200\<rparr>,
        timeline := timeline received_once @
                    [entry ReceivedA (Some 1) 200 ''Initiator received item'']\<rparr>"

text \<open>
  Member 1 holds 5 points and owns item 20, worth 30 points; member 2 owns item 10, worth
  40 points. Member 1 offers item 20 for item 10; in the second run member 1 deletes
  item 20 before member 2 accepts.
\<close>

definition swap_offer :: state where
  "swap_offer =
     \<lparr>users = [1 \<mapsto> member 5 5 0, 2 \<mapsto> member 0 0 0],
      items = [10 \<mapsto> listing 2 40, 20 \<mapsto> listing 1 30],
      swaps = []\<rparr>"

definition offer_requests :: "(time \<times> request) list" where
  "offer_requests = [(0, CreateExchange 1 10 SwapT None (Some 20))]"

definition offer_withdrawn_requests :: "(time \<times> request) list" where
  "offer_withdrawn_requests =
     [(0, CreateExchange 1 10 SwapT None (Some 20)), (1, DeleteItem 1 20)]"

text \<open>A pending swap of item 20 (member 1) against item 10 (member 2).\<close>

definition swap_store :: state where
  "swap_store =
     \<lparr>users = [1 \<mapsto> member 5 5 0, 2 \<mapsto> member 0 0 0],
      items = [10 \<mapsto> listing 2 40, 20 \<mapsto> listing 1 30],
      swaps = [new_Swap 1 2 10 (Some 20) SwapT Pending 0 None [] 0]\<rparr>"

text \<open>The exchanges on record: recipient item, status and expiry of each.\<close>

definition requests_on_record :: "state \<Rightarrow> (iid \<times> swap_status \<times> time) list" where
  "requests_on_record s = map (\<lambda>sw. (recipientItem sw, status sw, expiresAt sw)) (swaps s)"

definition succeeds :: "error + state \<Rightarrow> bool" where
  "succeeds r = (case r of Inl e \<Rightarrow> False | Inr s \<Rightarrow> True)"

section \<open>How a request may change the Swap collection\<close>

text \<open>
  \<open>resaves i es s s'\<close>: the request saved over the swap \<open>i\<close> alone, kept its recipient item
  and its expiry date, left it in a status other than pending, and added the entries
  \<open>es\<close> at the end of its timeline.
\<close>

definition resaves :: "sid \<Rightarrow> timeline_entry list \<Rightarrow> state \<Rightarrow> state \<Rightarrow> bool" where
  "resaves i es s s' \<longleftrightarrow>
     i < length (swaps s) \<and>
     (\<exists>sw'. swaps s' = (swaps s)[i := sw']
        \<and> recipientItem sw' = recipientItem (swaps s ! i)
        \<and> expiresAt sw' = expiresAt (swaps s ! i)
        \<and> status sw' \<noteq> Pending
        \<and> timeline sw' = timeline (swaps s ! i) @ es)"

text \<open>The number of pending, unexpired requests for an item at a time.\<close>

definition active_requests :: "time \<Rightarrow> iid \<Rightarrow> state \<Rightarrow> nat" where
  "active_requests now i s = length (filter (unexpired_pending now i) (swaps s))"

section \<open>Unfolding rules\<close>

lemmas model_defs =
  accept_def reject_def markShipped_def markReceived_def complete_if_both_def
  addRating_def rated_def raiseDispute_def push_def entry_def

lemmas store_defs =
  update_user_def update_item_def earn_def spend_def set_status_def findById_def
  save_def protect_def admin_def completed_count_def purchase_count_def unexpired_pending_def
  existingSwap_def week_def no_shipping_def default_dispute_def pre_save_new_def new_Swap_def

lemmas route_defs =
  check_offer_def post_swaps_def points_or_0_def sell_items_def pointsCredit_def
  accept_points_def put_swaps_accept_def put_swaps_reject_def put_swaps_ship_def
  completion_inc_def completion_rewards_def put_swaps_receive_def post_swaps_rate_def
  post_swaps_dispute_def reactivate_items_def refund_def refundAmount_def
  put_admin_swaps_resolve_dispute_def purchase_record_def first_purchase_bonus_def
  post_items_buy_def forget_listing_def delete_items_def step_def succeeds_def

lemmas example_defs =
  balance_def earned_def spent_def availability_def member_def arbiter_def listing_def
  scenarioB_def scenarioB_requests_def two_offers_def overdraw_requests_def
  two_requesters_def accepted_swap_def disputed_swap_def
  disputed_store_def received_once_def received_twice_def swap_store_def
  requests_on_record_def swap_offer_def offer_requests_def offer_withdrawn_requests_def

lemmas milestone_defs = checkMilestones_def milestones_def

section \<open>Marking a swap received twice\<close>

text \<open>
  C6 (counterexample). The claim: a second \<open>markReceived\<close> of the same party either
  changes nothing on the exchange record or fails because the exchange is completed.
  Member 1 marks the accepted swap received at time 100 and again at time 200, while
  member 2 has not: the second call succeeds, the swap is still accepted, and both the
  timeline and member 1's received date differ from those after the first call.
\<close>

theorem markReceived_twice_counterexample:
  "markReceived accepted_swap 1 100 = Inr received_once
   \<and> status received_once = Accepted
   \<and> markReceived received_once 1 200 = Inr received_twice
   \<and> timeline received_twice \<noteq> timeline received_once
   \<and> initiatorReceivedAt (shipping received_twice) \<noteq> initiatorReceivedAt (shipping received_once)"
  by (simp add: model_defs example_defs no_shipping_def)

text \<open>
  C6 (amended). After a first successful \<open>markReceived\<close> of a party on an accepted swap,
  a second call of the same party fails with the method's wrong-status error when the
  first call completed the swap; otherwise it succeeds, leaves the swap accepted, sets
  the caller's received date to the time of the second call and appends one more
  \<open>received\<close> entry to the timeline.
\<close>

theorem markReceived_repeat:
  assumes "status sw = Accepted" and "markReceived sw u t1 = Inr sw1"
  shows "(status sw1 = Completed \<longrightarrow> markReceived sw1 u t2 = Inl NotAccepted)
       \<and> (status sw1 \<noteq> Completed \<longrightarrow>
            (\<exists>sw2 d. markReceived sw1 u t2 = Inr sw2
               \<and> status sw2 = Accepted
               \<and> timeline sw2 = timeline sw1 @ [entry ReceivedA (Some u) t2 d]
               \<and> shipping sw2 =
                   (if initiator sw = u
                    then (shipping sw1)\<lparr>initiatorReceivedAt := Some t2\<rparr>
                    else (shipping sw1)\<lparr>recipientReceivedAt := Some t2\<rparr>)))"
  using assms
  by (auto simp add: markReceived_def complete_if_both_def push_def split: if_splits)

theorem markReceived_repeat_witness:
  "status accepted_swap = Accepted \<and> markReceived accepted_swap 1 100 = Inr received_once
   \<and> status received_once \<noteq> Completed
   \<and> (\<exists>sw2 d. markReceived received_once 1 200 = Inr sw2
               \<and> status sw2 = Accepted
               \<and> timeline sw2 = timeline received_once @ [entry ReceivedA (Some 1) 200 d])"
proof -
  have a: "status accepted_swap = Accepted"
    by (simp add: accepted_swap_def)
  have b: "markReceived accepted_swap 1 100 = Inr received_once"
    by (simp add: model_defs example_defs no_shipping_def)
  have c: "status received_once \<noteq> Completed"
    by (simp add: received_once_def accepted_swap_def)
  from markReceived_repeat [OF a b, of 200] a b c
  show ?thesis by blast
qed

section \<open>Resolving a dispute in favour of the recipient\<close>

text \<open>
  C10. When an administrator resolves the open dispute of an accepted swap with
  \<open>favor-recipient\<close>, the request succeeds, the swap becomes completed and its dispute
  resolved, and nothing else moves: the users (balances, lifetime counters,
  \<open>swapsCompleted\<close>) and the items are those of the store before, and no other swap
  changes. No completion reward is paid on this path.
\<close>

theorem favor_recipient_frame:
  assumes "protect s u = Inr usr" and "admin usr"
    and "5 \<le> length notes" and "length notes \<le> 500"
    and "findById s i = Some sw"
    and "status sw = Accepted"
    and "dispute_status (dispute sw) = Open"
  shows "\<exists>s'. put_admin_swaps_resolve_dispute now u i FavorRecipient notes s = Inr s'
           \<and> users s' = users s \<and> items s' = items s
           \<and> map_option status (findById s' i) = Some Completed
           \<and> map_option (\<lambda>x. dispute_status (dispute x)) (findById s' i) = Some Resolved
           \<and> length (swaps s') = length (swaps s)
           \<and> (\<forall>k. k \<noteq> i \<longrightarrow> findById s' k = findById s k)"
  using assms
  by (auto simp add: put_admin_swaps_resolve_dispute_def findById_def save_def split: if_splits)

theorem favor_recipient_frame_witness:
  "protect disputed_store 9 = Inr arbiter \<and> admin arbiter
   \<and> findById disputed_store 0 = Some disputed_swap
   \<and> status disputed_swap = Accepted
   \<and> dispute_status (dispute disputed_swap) = Open
   \<and> (\<exists>s'. put_admin_swaps_resolve_dispute 3 9 0 FavorRecipient ''keep it'' disputed_store = Inr s'
           \<and> users s' = users disputed_store \<and> items s' = items disputed_store
           \<and> map_option status (findById s' 0) = Some Completed)"
proof -
  have p: "protect disputed_store 9 = Inr arbiter"
    by (simp add: protect_def disputed_store_def arbiter_def member_def)
  have a: "admin arbiter"
    by (simp add: admin_def arbiter_def)
  have f: "findById disputed_store 0 = Some disputed_swap"
    by (simp add: findById_def disputed_store_def)
  have st: "status disputed_swap = Accepted"
    by (simp add: disputed_swap_def accepted_swap_def)
  have d: "dispute_status (dispute disputed_swap) = Open"
    by (simp add: disputed_swap_def)
  have n: "5 \<le> length ''keep it''" "length ''keep it'' \<le> 500"
    by simp_all
  from favor_recipient_frame [OF p a n f st d, of 3] p a f st d
  show ?thesis by blast
qed

section \<open>Partial refund\<close>

text \<open>
  C4 (counterexample). The claim: a partial refund moves half of the exchange's points
  from the recipient to the initiator. In the disputed redeem of 40 points the initiator
  (member 1) goes from 0 to 20 points, and the recipient (member 2) holds 40 points
  before and after the resolution: nothing is taken from the recipient.
\<close>

theorem partial_refund_counterexample:
  "succeeds (handle 3 (ResolveDispute 9 0 PartialRefund ''half back'') disputed_store)
   \<and> map swap_type (swaps disputed_store) = [Redeem]
   \<and> map swap_points (swaps disputed_store) = [40]
   \<and> balance disputed_store 1 = Some 0
   \<and> balance (step 3 (ResolveDispute 9 0 PartialRefund ''half back'') disputed_store) 1 = Some 20
   \<and> balance disputed_store 2 = Some 40
   \<and> balance (step 3 (ResolveDispute 9 0 PartialRefund ''half back'') disputed_store) 2 = Some 40"
  by (simp add: model_defs store_defs route_defs example_defs)

text \<open>
  C4 (amended). Resolving the open dispute of a redeem exchange with \<open>partial-refund\<close>
  adds half of the exchange's points amount, rounded down, to the initiator's balance and
  leaves the balance of every other member, the recipient included, as it was. The
  exchange becomes completed and its dispute resolved; the items are untouched.
\<close>

theorem partial_refund_effect:
  assumes "protect s u = Inr usr" and "admin usr"
    and "5 \<le> length notes" and "length notes \<le> 500"
    and "findById s i = Some sw"
    and "swap_type sw = Redeem"
    and "dispute_status (dispute sw) = Open"
    and "users s (initiator sw) = Some iu"
  shows "\<exists>s'. put_admin_swaps_resolve_dispute now u i PartialRefund notes s = Inr s'
           \<and> balance s' (initiator sw) = Some (points iu + swap_points sw div 2)
           \<and> (\<forall>v. v \<noteq> initiator sw \<longrightarrow> balance s' v = balance s v)
           \<and> items s' = items s
           \<and> map_option status (findById s' i) = Some Completed
           \<and> map_option (\<lambda>x. dispute_status (dispute x)) (findById s' i) = Some Resolved"
  using assms
  by (auto simp add: put_admin_swaps_resolve_dispute_def findById_def save_def update_user_def
      refund_def refundAmount_def balance_def split: if_splits)

theorem partial_refund_effect_witness:
  "protect disputed_store 9 = Inr arbiter \<and> admin arbiter
   \<and> findById disputed_store 0 = Some disputed_swap
   \<and> swap_type disputed_swap = Redeem
   \<and> dispute_status (dispute disputed_swap) = Open
   \<and> users disputed_store (initiator disputed_swap) = Some (member 0 40 40)
   \<and> recipient disputed_swap = 2
   \<and> balance disputed_store 2 = Some 40
   \<and> (\<exists>s'. put_admin_swaps_resolve_dispute 3 9 0 PartialRefund ''half back'' disputed_store = Inr s'
           \<and> balance s' 1 = Some 20
           \<and> balance s' 2 = Some 40
           \<and> items s' = items disputed_store
           \<and> map_option status (findById s' 0) = Some Completed)"
proof -
  have p: "protect disputed_store 9 = Inr arbiter"
    by (simp add: protect_def disputed_store_def arbiter_def member_def)
  have a: "admin arbiter"
    by (simp add: admin_def arbiter_def)
  have f: "findById disputed_store 0 = Some disputed_swap"
    by (simp add: findById_def disputed_store_def)
  have ty: "swap_type disputed_swap = Redeem"
    by (simp add: disputed_swap_def accepted_swap_def)
  have d: "dispute_status (dispute disputed_swap) = Open"
    by (simp add: disputed_swap_def)
  have n: "5 \<le> length ''half back''" "length ''half back'' \<le> 500"
    by simp_all
  have i: "users disputed_store (initiator disputed_swap) = Some (member 0 40 40)"
    by (simp add: disputed_store_def disputed_swap_def accepted_swap_def)
  have m: "points (member 0 40 40) + swap_points disputed_swap div 2 = 20"
    by (simp add: member_def disputed_swap_def accepted_swap_def)
  have one: "initiator disputed_swap = 1" and two: "recipient disputed_swap = 2"
    by (simp_all add: disputed_swap_def accepted_swap_def)
  have b: "balance disputed_store 2 = Some 40"
    by (simp add: balance_def disputed_store_def member_def)
  from partial_refund_effect [OF p a n f ty d i, of 3]
  obtain s' where s':
    "put_admin_swaps_resolve_dispute 3 9 0 PartialRefund ''half back'' disputed_store = Inr s'"
    "balance s' 1 = Some 20"
    "\<forall>v. v \<noteq> 1 \<longrightarrow> balance s' v = balance disputed_store v"
    "items s' = items disputed_store"
    "map_option status (findById s' 0) = Some Completed"
    unfolding m one by blast
  from s'(3) b have "balance s' 2 = Some 40" by simp
  with s' p a f ty d i two b show ?thesis by blast
qed

section \<open>Creating an exchange\<close>

text \<open>
  C2 (counterexample). The claim: a successful create reserves the recipient item. Member
  1's redeem request for item 10 succeeds and is pending, and item 10 is active before
  and after it: the route writes no item, and an item has no reserved status to take.
\<close>

theorem create_keeps_item_active_counterexample:
  "succeeds (handle 0 (CreateExchange 1 10 Redeem None None) two_offers)
   \<and> map status (swaps (step 0 (CreateExchange 1 10 Redeem None None) two_offers)) = [Pending]
   \<and> availability two_offers 10 = Some Active
   \<and> availability (step 0 (CreateExchange 1 10 Redeem None None) two_offers) 10 = Some Active"
  by (simp add: model_defs store_defs route_defs example_defs)

text \<open>
  C2 (amended). A successful create appends one exchange record to the collection, from
  the caller to the owner of the recipient item, in status pending, with a timeline of
  exactly one \<open>created\<close> entry by the caller, with \<open>expiresAt\<close> seven days after the
  request, and with the item's points for a redeem and 0 for a swap. The recipient item
  was active and stays so: items and users are not written.
\<close>

theorem create_success:
  assumes "post_swaps now u i ty msg j s = Inr s'"
  shows "\<exists>it sw. items s i = Some it \<and> swaps s' = swaps s @ [sw]
           \<and> initiator sw = u \<and> recipient sw = owner it \<and> recipientItem sw = i
           \<and> swap_type sw = ty
           \<and> status sw = Pending
           \<and> timeline sw = [entry CreatedA (Some u) now ''Swap request created'']
           \<and> expiresAt sw = now + 7 * 24 * 60 * 60 * 1000
           \<and> swap_points sw = (if ty = Redeem then item_points it else 0)
           \<and> item_status it = Active
           \<and> items s' = items s \<and> users s' = users s"
  using assms
  by (auto simp add: post_swaps_def new_Swap_def pre_save_new_def push_def week_def
      split: sum.splits if_splits option.splits)

theorem create_success_witness:
  "post_swaps 0 1 10 Redeem None None two_offers
     = Inr (two_offers\<lparr>swaps := [new_Swap 1 2 10 None Redeem Pending 40 None [] 0]\<rparr>)
   \<and> (\<exists>it sw. items two_offers 10 = Some it
         \<and> swaps (two_offers\<lparr>swaps := [new_Swap 1 2 10 None Redeem Pending 40 None [] 0]\<rparr>)
             = swaps two_offers @ [sw]
         \<and> status sw = Pending
         \<and> timeline sw = [entry CreatedA (Some 1) 0 ''Swap request created'']
         \<and> expiresAt sw = 0 + 7 * 24 * 60 * 60 * 1000
         \<and> swap_points sw = item_points it
         \<and> item_status it = Active)"
proof -
  have c: "post_swaps 0 1 10 Redeem None None two_offers
     = Inr (two_offers\<lparr>swaps := [new_Swap 1 2 10 None Redeem Pending 40 None [] 0]\<rparr>)"
    by (simp add: post_swaps_def protect_def check_offer_def existingSwap_def two_offers_def
        member_def listing_def)
  from create_success [OF c] c show ?thesis by auto
qed

section \<open>Deleting an item\<close>

text \<open>
  C9 (the code at the failing input). Item 10 of member 2 is the recipient item of a
  pending exchange. The owner's delete request succeeds: the item is gone, and the
  exchange is still pending and still names item 10.
\<close>

theorem delete_item_mid_exchange:
  "requests_on_record (run [(0, CreateExchange 1 10 Redeem None None)] two_offers)
     = [(10, Pending, 604800000)]
   \<and> availability (run [(0, CreateExchange 1 10 Redeem None None)] two_offers) 10 = Some Active
   \<and> succeeds (handle 1 (DeleteItem 2 10)
                 (run [(0, CreateExchange 1 10 Redeem None None)] two_offers))
   \<and> availability
        (run [(0, CreateExchange 1 10 Redeem None None), (1, DeleteItem 2 10)] two_offers) 10
      = None
   \<and> requests_on_record
        (run [(0, CreateExchange 1 10 Redeem None None), (1, DeleteItem 2 10)] two_offers)
     = [(10, Pending, 604800000)]"
  by (simp add: model_defs store_defs route_defs example_defs)

section \<open>The points ledger\<close>

text \<open>
  C1 (the code at the failing inputs). Member 1 holds 40 points, all earned, and asks to
  redeem two items of 40 points each; both requests pass the balance check, both owners
  accept, and member 1 ends with -40 points. In the disputed store member 1 holds 0
  points with 40 earned and 40 spent; the partial refund makes the balance 20 while both
  lifetime counters stay at 40.
\<close>

theorem ledger_invariant_broken:
  "map_option ledger_ok (users two_offers 1) = Some True
   \<and> map status (swaps (run overdraw_requests two_offers)) = [Accepted, Accepted]
   \<and> balance (run overdraw_requests two_offers) 1 = Some (- 40)
   \<and> map_option ledger_ok (users (run overdraw_requests two_offers) 1) = Some False
   \<and> map_option ledger_ok (users disputed_store 1) = Some True
   \<and> succeeds (handle 3 (ResolveDispute 9 0 PartialRefund ''half back'') disputed_store)
   \<and> balance (step 3 (ResolveDispute 9 0 PartialRefund ''half back'') disputed_store) 1 = Some 20
   \<and> earned (step 3 (ResolveDispute 9 0 PartialRefund ''half back'') disputed_store) 1 = Some 40
   \<and> spent (step 3 (ResolveDispute 9 0 PartialRefund ''half back'') disputed_store) 1 = Some 40
   \<and> map_option ledger_ok
        (users (step 3 (ResolveDispute 9 0 PartialRefund ''half back'') disputed_store) 1)
      = Some False"
  by (simp add: model_defs store_defs route_defs example_defs ledger_ok_def)

section \<open>What each route does to the Swap collection\<close>

lemma swaps_update_user [simp]: "swaps (update_user u f s) = swaps s"
  by (simp add: update_user_def split: option.splits)

lemma swaps_update_item [simp]: "swaps (update_item i f s) = swaps s"
  by (simp add: update_item_def split: option.splits)

lemma swaps_sell_items [simp]: "swaps (sell_items sw s) = swaps s"
  by (simp add: sell_items_def Let_def split: option.splits)

lemma swaps_reactivate_items [simp]: "swaps (reactivate_items sw s) = swaps s"
  by (simp add: reactivate_items_def Let_def split: option.splits)

lemma swaps_accept_points [simp]: "swaps (accept_points sw s) = swaps s"
  by (simp add: accept_points_def)

lemma swaps_checkMilestones:
  "checkMilestones u doc s = Inr s' \<Longrightarrow> swaps s' = swaps s"
  by (auto simp add: checkMilestones_def split: prod.splits if_splits option.splits)

lemma swaps_completion_rewards [simp]: "swaps (completion_rewards sw s) = swaps s"
  by (auto simp add: completion_rewards_def Let_def swaps_checkMilestones
      split: option.splits sum.splits)

lemma swaps_first_purchase_bonus [simp]: "swaps (first_purchase_bonus u s) = swaps s"
  by (simp add: first_purchase_bonus_def)

lemma swaps_save [simp]: "swaps (save i sw s) = (swaps s)[i := sw]"
  by (simp add: save_def)

lemma swaps_resolve:
  "swaps (resolve res i sw s)
     = (swaps s)[i := sw\<lparr>status := (if res = FavorRecipient \<or> res = PartialRefund
                                     then Completed else Cancelled)\<rparr>]"
  by (cases res) simp_all

lemma resaves_from:
  assumes "findById s i = Some sw" and "swaps s' = (swaps s)[i := sw']"
    and "recipientItem sw' = recipientItem sw \<and> expiresAt sw' = expiresAt sw
         \<and> status sw' \<noteq> Pending \<and> timeline sw' = timeline sw @ es"
  shows "resaves i es s s'"
  using assms by (auto simp add: resaves_def findById_def split: if_splits)

lemma accept_shape:
  assumes "accept sw u now = Inr sw'"
  shows "recipientItem sw' = recipientItem sw \<and> expiresAt sw' = expiresAt sw
       \<and> status sw' \<noteq> Pending
       \<and> timeline sw' = timeline sw @ [entry AcceptedA (Some u) now ''Swap accepted'']"
  using assms by (auto simp add: accept_def push_def split: if_splits)

lemma reject_shape:
  assumes "reject sw u now = Inr sw'"
  shows "recipientItem sw' = recipientItem sw \<and> expiresAt sw' = expiresAt sw
       \<and> status sw' \<noteq> Pending
       \<and> timeline sw' = timeline sw @ [entry RejectedA (Some u) now ''Swap rejected'']"
  using assms by (auto simp add: reject_def push_def split: if_splits)

lemma markShipped_shape:
  assumes "markShipped sw u n now = Inr sw'"
  shows "recipientItem sw' = recipientItem sw \<and> expiresAt sw' = expiresAt sw
       \<and> status sw' \<noteq> Pending
       \<and> timeline sw' = timeline sw @
            [entry ShippedA (Some u) now
               (if initiator sw = u then ''Initiator shipped item''
                else ''Recipient shipped item'')]"
  using assms by (auto simp add: markShipped_def push_def split: if_splits)

lemma markReceived_shape:
  assumes "markReceived sw u now = Inr sw'"
  shows "recipientItem sw' = recipientItem sw \<and> expiresAt sw' = expiresAt sw
       \<and> status sw' \<noteq> Pending
       \<and> timeline sw' = timeline sw @
            entry ReceivedA (Some u) now
               (if initiator sw = u then ''Initiator received item''
                else ''Recipient received item'')
            # (if status sw' = Completed
               then [entry CompletedA None now ''Swap completed successfully''] else [])"
  using assms
  by (auto simp add: markReceived_def complete_if_both_def push_def split: if_splits)

lemma addRating_shape:
  assumes "addRating sw u r c now = Inr sw'"
  shows "recipientItem sw' = recipientItem sw \<and> expiresAt sw' = expiresAt sw
       \<and> status sw' \<noteq> Pending \<and> timeline sw' = timeline sw @ []"
  using assms by (auto simp add: addRating_def split: if_splits)

lemma raiseDispute_shape:
  assumes "raiseDispute sw u r d now = Inr sw'"
  shows "recipientItem sw' = recipientItem sw \<and> expiresAt sw' = expiresAt sw
       \<and> status sw' \<noteq> Pending
       \<and> timeline sw' = timeline sw @
            [entry DisputedA (Some u) now (''Dispute raised: '' @ reason_string r)]"
  using assms by (auto simp add: raiseDispute_def push_def split: if_splits)

lemma accept_resaves:
  assumes "put_swaps_accept now u i s = Inr s'"
  shows "resaves i [entry AcceptedA (Some u) now ''Swap accepted''] s s'"
proof -
  from assms obtain sw sw' where f: "findById s i = Some sw"
    and m: "accept sw u now = Inr sw'"
    and s': "swaps s' = (swaps s)[i := sw']"
    by (auto simp add: put_swaps_accept_def split: sum.splits option.splits if_splits)
  from resaves_from [OF f s' accept_shape [OF m]] show ?thesis .
qed

lemma reject_resaves:
  assumes "put_swaps_reject now u i s = Inr s'"
  shows "resaves i [entry RejectedA (Some u) now ''Swap rejected''] s s'"
proof -
  from assms obtain sw sw' where f: "findById s i = Some sw"
    and m: "reject sw u now = Inr sw'"
    and s': "swaps s' = (swaps s)[i := sw']"
    by (auto simp add: put_swaps_reject_def split: sum.splits option.splits if_splits)
  from resaves_from [OF f s' reject_shape [OF m]] show ?thesis .
qed

lemma ship_resaves:
  assumes "put_swaps_ship now u i n s = Inr s'"
  shows "\<exists>e. resaves i [e] s s'"
proof -
  from assms obtain sw sw' where f: "findById s i = Some sw"
    and m: "markShipped sw u n now = Inr sw'"
    and s': "swaps s' = (swaps s)[i := sw']"
    by (auto simp add: put_swaps_ship_def split: sum.splits option.splits if_splits)
  from resaves_from [OF f s' markShipped_shape [OF m]] show ?thesis ..
qed

lemma receive_resaves:
  assumes "put_swaps_receive now u i s = Inr s'"
  shows "\<exists>e es. resaves i (e # es) s s'"
proof -
  from assms obtain sw sw' where f: "findById s i = Some sw"
    and m: "markReceived sw u now = Inr sw'"
    and s': "swaps s' = (swaps s)[i := sw']"
    by (auto simp add: put_swaps_receive_def split: sum.splits option.splits if_splits)
  from resaves_from [OF f s' markReceived_shape [OF m]] show ?thesis by blast
qed

lemma rate_resaves:
  assumes "post_swaps_rate now u i r c s = Inr s'"
  shows "resaves i [] s s'"
proof -
  from assms obtain sw sw' where f: "findById s i = Some sw"
    and m: "addRating sw u r c now = Inr sw'"
    and s': "swaps s' = (swaps s)[i := sw']"
    by (auto simp add: post_swaps_rate_def split: sum.splits option.splits if_splits)
  from resaves_from [OF f s' addRating_shape [OF m]] show ?thesis .
qed

lemma dispute_resaves:
  assumes "post_swaps_dispute now u i r d s = Inr s'"
  shows "\<exists>e. resaves i [e] s s'"
proof -
  from assms obtain sw sw' where f: "findById s i = Some sw"
    and m: "raiseDispute sw u r d now = Inr sw'"
    and s': "swaps s' = (swaps s)[i := sw']"
    by (auto simp add: post_swaps_dispute_def split: sum.splits option.splits if_splits)
  from resaves_from [OF f s' raiseDispute_shape [OF m]] show ?thesis ..
qed

lemma resolve_resaves:
  assumes "put_admin_swaps_resolve_dispute now u i res notes s = Inr s'"
  shows "resaves i [] s s'"
proof -
  from assms obtain sw where f: "findById s i = Some sw"
    and s': "swaps s' = (swaps s)
               [i := sw\<lparr>dispute := (dispute sw)\<lparr>dispute_status := Resolved,
                                                   adminNotes := Some notes,
                                                   resolvedBy := Some u,
                                                   resolvedAt := Some now\<rparr>,
                        status := (if res = FavorRecipient \<or> res = PartialRefund
                                   then Completed else Cancelled)\<rparr>]"
    by (auto simp add: put_admin_swaps_resolve_dispute_def swaps_resolve
        split: sum.splits option.splits if_splits)
  show ?thesis
    by (rule resaves_from [OF f s']) simp
qed

lemma create_appends:
  assumes "post_swaps now u i ty msg j s = Inr s'"
  shows "existingSwap s i now = None
       \<and> (\<exists>sw. swaps s' = swaps s @ [sw] \<and> recipientItem sw = i \<and> status sw = Pending
              \<and> expiresAt sw = now + week
              \<and> timeline sw = [entry CreatedA (Some u) now ''Swap request created''])"
  using assms
  by (auto simp add: post_swaps_def new_Swap_def pre_save_new_def push_def
      split: sum.splits option.splits if_splits)

lemma buy_appends:
  assumes "post_items_buy now u i s = Inr s'"
  shows "\<exists>sw. swaps s' = swaps s @ [sw] \<and> status sw = Completed \<and> length (timeline sw) = 3"
  using assms
  by (auto simp add: post_items_buy_def Let_def purchase_record_def new_Swap_def
      pre_save_new_def push_def split: sum.splits option.splits if_splits)

lemma delete_keeps_swaps:
  assumes "delete_items u i s = Inr s'"
  shows "swaps s' = swaps s"
  using assms
  by (auto simp add: delete_items_def split: sum.splits option.splits if_splits)

section \<open>Accepting a swap of two items\<close>

lemma users_save [simp]: "users (save i sw s) = users s"
  by (simp add: save_def)

lemma items_save [simp]: "items (save i sw s) = items s"
  by (simp add: save_def)

lemma users_update_item [simp]: "users (update_item k f s) = users s"
  by (simp add: update_item_def split: option.splits)

lemma items_update_user [simp]: "items (update_user v f s) = items s"
  by (simp add: update_user_def split: option.splits)

lemma users_sell_items [simp]: "users (sell_items sw s) = users s"
  by (simp add: sell_items_def Let_def split: option.splits)

lemma points_or_0_update_item [simp]:
  "points_or_0 (update_item k (set_status st) s) io = points_or_0 s io"
  by (cases io) (auto simp add: points_or_0_def update_item_def set_status_def split: option.splits)

lemma points_or_0_save [simp]: "points_or_0 (save i sw s) io = points_or_0 s io"
  by (cases io) (simp_all add: points_or_0_def)

lemma points_or_0_sell_items [simp]: "points_or_0 (sell_items sw s) io = points_or_0 s io"
  by (simp add: sell_items_def Let_def split: option.splits)


lemma availability_save [simp]: "availability (save i sw s) j = availability s j"
  by (simp add: availability_def)

lemma items_None_update_item [simp]:
  "items (update_item k f s) j = None \<longleftrightarrow> items s j = None"
  by (simp add: update_item_def split: option.splits)




lemma availability_update_user [simp]: "availability (update_user v f s) j = availability s j"
  by (simp add: availability_def)





section \<open>The timeline\<close>

lemma resaves_prefix:
  assumes "resaves i es s s'"
  shows "length (swaps s') = length (swaps s)
       \<and> (\<forall>k<length (swaps s). prefix (timeline (swaps s ! k)) (timeline (swaps s' ! k)))
       \<and> timeline (swaps s' ! i) = timeline (swaps s ! i) @ es"
  using assms by (auto simp add: resaves_def nth_list_update)

lemma appended_prefix:
  assumes "swaps s' = swaps s @ [sw]"
  shows "length (swaps s) \<le> length (swaps s')
       \<and> (\<forall>k<length (swaps s). prefix (timeline (swaps s ! k)) (timeline (swaps s' ! k)))"
  using assms by (simp add: nth_append)

text \<open>
  C8 (counterexample). The claim: every mutating operation appends a timeline entry.
  Rating the completed exchange of Scenario B succeeds and leaves every timeline as it
  was.
\<close>

theorem rate_counterexample:
  "map status (swaps (run (scenarioB_requests 0 1 2 3) (scenarioB 40))) = [Completed]
   \<and> succeeds (handle 4 (RateExchange 1 0 5 None) (run (scenarioB_requests 0 1 2 3) (scenarioB 40)))
   \<and> map timeline (swaps (step 4 (RateExchange 1 0 5 None)
                             (run (scenarioB_requests 0 1 2 3) (scenarioB 40))))
       = map timeline (swaps (run (scenarioB_requests 0 1 2 3) (scenarioB 40)))"
  by (simp add: model_defs store_defs route_defs example_defs milestone_defs)

text \<open>
  C8 (amended). For every successful request the collection only grows and the timeline
  of every exchange on record before is a prefix of its timeline after. Create makes a
  new exchange whose timeline is one \<open>created\<close> entry; accept, reject, markShipped,
  markReceived and raiseDispute make the timeline of their exchange longer; rate leaves
  the timeline of its exchange as it was. (A purchase makes a new exchange with three
  entries; deleting an item writes no exchange.)
\<close>

theorem timeline_append_only:
  assumes "handle now req s = Inr s'"
  shows "length (swaps s) \<le> length (swaps s')
       \<and> (\<forall>k<length (swaps s). prefix (timeline (swaps s ! k)) (timeline (swaps s' ! k)))
       \<and> (case req of
            CreateExchange u i ty msg j \<Rightarrow>
              (\<exists>sw. swaps s' = swaps s @ [sw]
                 \<and> timeline sw = [entry CreatedA (Some u) now ''Swap request created''])
          | AcceptExchange u k \<Rightarrow>
              length (timeline (swaps s ! k)) < length (timeline (swaps s' ! k))
          | RejectExchange u k \<Rightarrow>
              length (timeline (swaps s ! k)) < length (timeline (swaps s' ! k))
          | MarkShipped u k n \<Rightarrow>
              length (timeline (swaps s ! k)) < length (timeline (swaps s' ! k))
          | MarkReceived u k \<Rightarrow>
              length (timeline (swaps s ! k)) < length (timeline (swaps s' ! k))
          | RaiseDispute u k r d \<Rightarrow>
              length (timeline (swaps s ! k)) < length (timeline (swaps s' ! k))
          | RateExchange u k r c \<Rightarrow> timeline (swaps s' ! k) = timeline (swaps s ! k)
          | ResolveDispute u k res notes \<Rightarrow> True
          | PurchaseWithPoints u i \<Rightarrow>
              (\<exists>sw. swaps s' = swaps s @ [sw] \<and> length (timeline sw) = 3)
          | DeleteItem u i \<Rightarrow> swaps s' = swaps s)"
proof (cases req)
  case (CreateExchange u i ty msg j)
  with assms have "post_swaps now u i ty msg j s = Inr s'" by simp
  from create_appends [OF this] obtain sw where sw: "swaps s' = swaps s @ [sw]"
    "timeline sw = [entry CreatedA (Some u) now ''Swap request created'']" by blast
  from appended_prefix [OF sw(1)] sw show ?thesis
    unfolding CreateExchange by auto
next
  case (AcceptExchange u k)
  with assms have "put_swaps_accept now u k s = Inr s'" by simp
  from resaves_prefix [OF accept_resaves [OF this]] show ?thesis
    unfolding AcceptExchange by simp
next
  case (RejectExchange u k)
  with assms have "put_swaps_reject now u k s = Inr s'" by simp
  from resaves_prefix [OF reject_resaves [OF this]] show ?thesis
    unfolding RejectExchange by simp
next
  case (MarkShipped u k n)
  with assms have "put_swaps_ship now u k n s = Inr s'" by simp
  from ship_resaves [OF this] obtain e where "resaves k [e] s s'" ..
  from resaves_prefix [OF this] show ?thesis
    unfolding MarkShipped by simp
next
  case (MarkReceived u k)
  with assms have "put_swaps_receive now u k s = Inr s'" by simp
  from receive_resaves [OF this] obtain e es where "resaves k (e # es) s s'" by blast
  from resaves_prefix [OF this] show ?thesis
    unfolding MarkReceived by simp
next
  case (RateExchange u k r c)
  with assms have "post_swaps_rate now u k r c s = Inr s'" by simp
  from resaves_prefix [OF rate_resaves [OF this]] show ?thesis
    unfolding RateExchange by simp
next
  case (RaiseDispute u k r d)
  with assms have "post_swaps_dispute now u k r d s = Inr s'" by simp
  from dispute_resaves [OF this] obtain e where "resaves k [e] s s'" ..
  from resaves_prefix [OF this] show ?thesis
    unfolding RaiseDispute by simp
next
  case (ResolveDispute u k res nt)
  with assms have "put_admin_swaps_resolve_dispute now u k res nt s = Inr s'" by simp
  from resaves_prefix [OF resolve_resaves [OF this]] show ?thesis
    unfolding ResolveDispute by simp
next
  case (PurchaseWithPoints u i)
  with assms have "post_items_buy now u i s = Inr s'" by simp
  from buy_appends [OF this] obtain sw where sw: "swaps s' = swaps s @ [sw]"
    "length (timeline sw) = 3" by blast
  from appended_prefix [OF sw(1)] sw show ?thesis
    unfolding PurchaseWithPoints by auto
next
  case (DeleteItem u i)
  with assms have "delete_items u i s = Inr s'" by simp
  from delete_keeps_swaps [OF this] show ?thesis
    unfolding DeleteItem by simp
qed

theorem timeline_append_only_witness:
  "handle 1 (AcceptExchange 2 0) swap_store
     = Inr (step 1 (AcceptExchange 2 0) swap_store)
   \<and> length (swaps swap_store) = 1
   \<and> prefix (timeline (swaps swap_store ! 0))
            (timeline (swaps (step 1 (AcceptExchange 2 0) swap_store) ! 0))
   \<and> length (timeline (swaps swap_store ! 0))
       < length (timeline (swaps (step 1 (AcceptExchange 2 0) swap_store) ! 0))"
proof -
  have h: "handle 1 (AcceptExchange 2 0) swap_store
     = Inr (step 1 (AcceptExchange 2 0) swap_store)"
    by (simp add: model_defs store_defs route_defs example_defs swap_store_def)
  have l: "length (swaps swap_store) = 1"
    by (simp add: swap_store_def)
  from timeline_append_only [OF h] h l show ?thesis by simp
qed

section \<open>One unexpired pending request per item\<close>

lemma filter_update_le:
  assumes "P y \<Longrightarrow> i < length xs \<Longrightarrow> P (xs ! i)"
  shows "length (filter P (xs[i := y])) \<le> length (filter P xs)"
  using assms
proof (induction xs arbitrary: i)
  case Nil
  then show ?case by simp
next
  case (Cons x xs)
  show ?case
  proof (cases i)
    case 0
    with Cons.prems show ?thesis by auto
  next
    case (Suc k)
    from Cons.prems Suc have "P y \<Longrightarrow> k < length xs \<Longrightarrow> P (xs ! k)" by simp
    from Cons.IH [OF this] Suc show ?thesis by simp
  qed
qed

lemma filter_mono_le:
  assumes "\<And>x. x \<in> set xs \<Longrightarrow> P x \<Longrightarrow> Q x"
  shows "length (filter P xs) \<le> length (filter Q xs)"
  using assms by (induction xs) auto

lemma active_requests_later:
  assumes "t \<le> now"
  shows "active_requests now i s \<le> active_requests t i s"
proof -
  have "\<And>x. unexpired_pending now i x \<Longrightarrow> unexpired_pending t i x"
    using assms by (auto simp add: unexpired_pending_def)
  then show ?thesis
    unfolding active_requests_def by (intro filter_mono_le)
qed

lemma resaves_active_requests:
  assumes "resaves k es s s'"
  shows "active_requests now i s' \<le> active_requests now i s"
proof -
  from assms obtain sw' where s': "swaps s' = (swaps s)[k := sw']"
    and st: "status sw' \<noteq> Pending"
    by (auto simp add: resaves_def)
  from st have "\<not> unexpired_pending now i sw'"
    by (simp add: unexpired_pending_def)
  then show ?thesis
    unfolding active_requests_def s' by (intro filter_update_le) simp
qed

lemma existingSwap_None:
  "existingSwap s i now = None \<longleftrightarrow> active_requests now i s = 0"
  by (auto simp add: existingSwap_def active_requests_def find_None_iff filter_empty_conv)

lemma create_active_requests:
  assumes "post_swaps now u j ty msg k s = Inr s'" and "active_requests now i s \<le> 1"
  shows "active_requests now i s' \<le> 1"
proof -
  from create_appends [OF assms(1)] obtain sw where none: "existingSwap s j now = None"
    and s': "swaps s' = swaps s @ [sw]" and sw: "recipientItem sw = j"
    by blast
  show ?thesis
  proof (cases "i = j")
    case True
    with none have "active_requests now i s = 0" by (simp add: existingSwap_None)
    then show ?thesis by (simp add: active_requests_def s')
  next
    case False
    with sw have "\<not> unexpired_pending now i sw" by (auto simp add: unexpired_pending_def)
    with assms(2) show ?thesis by (simp add: active_requests_def s')
  qed
qed

lemma buy_active_requests:
  assumes "post_items_buy now u j s = Inr s'"
  shows "active_requests now i s' = active_requests now i s"
proof -
  from buy_appends [OF assms] obtain sw where "swaps s' = swaps s @ [sw]" "status sw = Completed"
    by blast
  then show ?thesis by (simp add: active_requests_def unexpired_pending_def)
qed

lemma handle_active_requests:
  assumes "handle now req s = Inr s'" and "active_requests now i s \<le> 1"
  shows "active_requests now i s' \<le> 1"
proof (cases req)
  case (CreateExchange u j ty msg k)
  with assms(1) have "post_swaps now u j ty msg k s = Inr s'" by simp
  from create_active_requests [OF this assms(2)] show ?thesis .
next
  case (AcceptExchange u k)
  with assms(1) have "put_swaps_accept now u k s = Inr s'" by simp
  from resaves_active_requests [OF accept_resaves [OF this], of now i] assms(2)
  show ?thesis by simp
next
  case (RejectExchange u k)
  with assms(1) have "put_swaps_reject now u k s = Inr s'" by simp
  from resaves_active_requests [OF reject_resaves [OF this], of now i] assms(2)
  show ?thesis by simp
next
  case (MarkShipped u k n)
  with assms(1) have "put_swaps_ship now u k n s = Inr s'" by simp
  from ship_resaves [OF this] obtain e where "resaves k [e] s s'" ..
  from resaves_active_requests [OF this, of now i] assms(2) show ?thesis by simp
next
  case (MarkReceived u k)
  with assms(1) have "put_swaps_receive now u k s = Inr s'" by simp
  from receive_resaves [OF this] obtain e es where "resaves k (e # es) s s'" by blast
  from resaves_active_requests [OF this, of now i] assms(2) show ?thesis by simp
next
  case (RateExchange u k r c)
  with assms(1) have "post_swaps_rate now u k r c s = Inr s'" by simp
  from resaves_active_requests [OF rate_resaves [OF this], of now i] assms(2)
  show ?thesis by simp
next
  case (RaiseDispute u k r d)
  with assms(1) have "post_swaps_dispute now u k r d s = Inr s'" by simp
  from dispute_resaves [OF this] obtain e where "resaves k [e] s s'" ..
  from resaves_active_requests [OF this, of now i] assms(2) show ?thesis by simp
next
  case (ResolveDispute u k res nt)
  with assms(1) have "put_admin_swaps_resolve_dispute now u k res nt s = Inr s'" by simp
  from resaves_active_requests [OF resolve_resaves [OF this], of now i] assms(2)
  show ?thesis by simp
next
  case (PurchaseWithPoints u j)
  with assms(1) have "post_items_buy now u j s = Inr s'" by simp
  from buy_active_requests [OF this, of i] assms(2) show ?thesis by simp
next
  case (DeleteItem u j)
  with assms(1) have "delete_items u j s = Inr s'" by simp
  from delete_keeps_swaps [OF this] assms(2) show ?thesis by (simp add: active_requests_def)
qed

lemma step_active_requests:
  assumes "active_requests t i s \<le> 1" and "t \<le> now"
  shows "active_requests now i (step now req s) \<le> 1"
proof -
  from active_requests_later [OF assms(2), of i s] assms(1)
  have le: "active_requests now i s \<le> 1" by simp
  show ?thesis
  proof (cases "handle now req s")
    case (Inl e)
    with le show ?thesis by (simp add: step_def)
  next
    case (Inr s')
    from handle_active_requests [OF Inr le] Inr show ?thesis by (simp add: step_def)
  qed
qed

lemma run_active_requests:
  assumes "active_requests t i s \<le> 1" and "sorted (map fst rs)"
    and "\<forall>x \<in> set rs. t \<le> fst x \<and> fst x \<le> now" and "t \<le> now"
  shows "active_requests now i (run rs s) \<le> 1"
  using assms
proof (induction rs arbitrary: t s)
  case Nil
  from active_requests_later [OF Nil.prems(4), of i s] Nil.prems(1) show ?case by simp
next
  case (Cons x rs)
  obtain t1 req where x: "x = (t1, req)" by (cases x)
  from Cons.prems x have t1: "t \<le> t1" "t1 \<le> now" by auto
  from step_active_requests [OF Cons.prems(1) t1(1)]
  have a: "active_requests t1 i (step t1 req s) \<le> 1" .
  from Cons.prems(2) x have b: "sorted (map fst rs)" and c: "\<forall>y \<in> set rs. t1 \<le> fst y"
    by auto
  from c Cons.prems(3) have d: "\<forall>y \<in> set rs. t1 \<le> fst y \<and> fst y \<le> now" by auto
  from Cons.IH [OF a b d t1(2)] x show ?case by simp
qed

lemma duplicate_refused:
  assumes "0 < active_requests now i s"
  shows "\<not> succeeds (post_swaps now u i ty msg j s)"
    and "protect s u = Inr usr \<Longrightarrow> (case msg of None \<Rightarrow> True | Some m \<Rightarrow> length m \<le> 500)
         \<Longrightarrow> items s i = Some it \<Longrightarrow> item_status it = Active \<Longrightarrow> owner it \<noteq> u
         \<Longrightarrow> check_offer s u usr ty j it = None
         \<Longrightarrow> post_swaps now u i ty msg j s = Inl DuplicateActiveRequest"
proof -
  from assms have "existingSwap s i now \<noteq> None" by (simp add: existingSwap_None)
  then obtain sw where e: "existingSwap s i now = Some sw" by auto
  then show "\<not> succeeds (post_swaps now u i ty msg j s)"
    by (auto simp add: post_swaps_def succeeds_def split: sum.splits option.splits)
  assume "protect s u = Inr usr" "case msg of None \<Rightarrow> True | Some m \<Rightarrow> length m \<le> 500"
    "items s i = Some it" "item_status it = Active" "owner it \<noteq> u"
    "check_offer s u usr ty j it = None"
  with e show "post_swaps now u i ty msg j s = Inl DuplicateActiveRequest"
    by (auto simp add: post_swaps_def split: option.splits)
qed

text \<open>
  C3 (counterexample). The claim: at most one pending or accepted exchange names an item
  as its recipient item, and a second create against an item with a pending exchange is
  refused as a duplicate, also once the first has passed its \<open>expiresAt\<close> without a
  change of status. Member 1's request for item 10 is made at time 0 and expires at
  604800000. At 604800001 it is still pending, and member 3's request for the same item
  is not refused: two pending exchanges name item 10. The owner can then accept both.
\<close>

theorem expired_request_counterexample:
  "requests_on_record (run [(0, CreateExchange 1 10 Redeem None None)] two_requesters)
     = [(10, Pending, 604800000)]
   \<and> handle 604800001 (CreateExchange 3 10 Redeem None None)
        (run [(0, CreateExchange 1 10 Redeem None None)] two_requesters)
      \<noteq> Inl DuplicateActiveRequest
   \<and> succeeds (handle 604800001 (CreateExchange 3 10 Redeem None None)
                 (run [(0, CreateExchange 1 10 Redeem None None)] two_requesters))
   \<and> requests_on_record
        (run [(0, CreateExchange 1 10 Redeem None None),
              (604800001, CreateExchange 3 10 Redeem None None)] two_requesters)
     = [(10, Pending, 604800000), (10, Pending, 1209600001)]
   \<and> requests_on_record
        (run [(0, CreateExchange 1 10 Redeem None None),
              (604800001, CreateExchange 3 10 Redeem None None),
              (604800002, AcceptExchange 2 0),
              (604800003, AcceptExchange 2 1)] two_requesters)
     = [(10, Accepted, 604800000), (10, Accepted, 1209600001)]"
  by (simp add: model_defs store_defs route_defs example_defs)

text \<open>
  C3 (amended). In every store reached from one without exchanges by requests served in
  the order of their times, and at every time from the last request on, at most one
  exchange that is pending and whose \<open>expiresAt\<close> is still ahead names a given item as
  its recipient item. While there is one, every create request for that item fails, and
  it fails with DuplicateActiveRequest when it passes the checks that come before the
  duplicate check. A pending exchange whose \<open>expiresAt\<close> has passed does not count, and
  accepted exchanges are not bounded.
\<close>

theorem one_unexpired_request_per_item:
  assumes "swaps s0 = []" and "sorted (map fst rs)" and "\<forall>x \<in> set rs. fst x \<le> now"
  shows "active_requests now i (run rs s0) \<le> 1
       \<and> (0 < active_requests now i (run rs s0) \<longrightarrow>
            \<not> succeeds (post_swaps now u i ty msg j (run rs s0))
            \<and> (\<forall>usr it. protect (run rs s0) u = Inr usr
                  \<longrightarrow> (case msg of None \<Rightarrow> True | Some m \<Rightarrow> length m \<le> 500)
                  \<longrightarrow> items (run rs s0) i = Some it
                  \<longrightarrow> item_status it = Active \<longrightarrow> owner it \<noteq> u
                  \<longrightarrow> check_offer (run rs s0) u usr ty j it = None
                  \<longrightarrow> post_swaps now u i ty msg j (run rs s0) = Inl DuplicateActiveRequest))"
proof -
  from assms(1) have a: "active_requests 0 i s0 \<le> 1"
    by (simp add: active_requests_def)
  from assms(3) have b: "\<forall>x \<in> set rs. 0 \<le> fst x \<and> fst x \<le> now" by simp
  from run_active_requests [OF a assms(2) b] have le: "active_requests now i (run rs s0) \<le> 1"
    by simp
  show ?thesis
  proof (intro conjI impI allI)
    show "active_requests now i (run rs s0) \<le> 1" by (rule le)
  next
    assume p: "0 < active_requests now i (run rs s0)"
    show "\<not> succeeds (post_swaps now u i ty msg j (run rs s0))"
      by (rule duplicate_refused(1) [OF p])
  next
    fix usr it
    assume p: "0 < active_requests now i (run rs s0)"
      and q: "protect (run rs s0) u = Inr usr"
      "case msg of None \<Rightarrow> True | Some m \<Rightarrow> length m \<le> 500"
      "items (run rs s0) i = Some it" "item_status it = Active" "owner it \<noteq> u"
      "check_offer (run rs s0) u usr ty j it = None"
    show "post_swaps now u i ty msg j (run rs s0) = Inl DuplicateActiveRequest"
      by (rule duplicate_refused(2) [OF p q])
  qed
qed

theorem one_unexpired_request_per_item_witness:
  "swaps two_requesters = []
   \<and> sorted (map fst [(0::nat, CreateExchange 1 10 Redeem None None)])
   \<and> active_requests 5 10 (run [(0, CreateExchange 1 10 Redeem None None)] two_requesters) = 1
   \<and> post_swaps 5 3 10 Redeem None None
        (run [(0, CreateExchange 1 10 Redeem None None)] two_requesters)
      = Inl DuplicateActiveRequest"
proof -
  let ?rs = "[(0::nat, CreateExchange 1 10 Redeem None None)]"
  let ?s = "run ?rs two_requesters"
  have a: "swaps two_requesters = []" by (simp add: two_requesters_def)
  have b: "sorted (map fst ?rs)" by simp
  have c: "\<forall>x \<in> set ?rs. fst x \<le> 5" by simp
  have n: "active_requests 5 10 ?s = 1"
    by (simp add: active_requests_def model_defs store_defs route_defs example_defs)
  have p: "protect ?s 3 = Inr (member 40 40 0)"
    by (simp add: model_defs store_defs route_defs example_defs)
  have i: "items ?s 10 = Some (listing 2 40)"
    by (simp add: model_defs store_defs route_defs example_defs)
  have o: "check_offer ?s 3 (member 40 40 0) Redeem None (listing 2 40) = None"
    by (simp add: check_offer_def member_def listing_def)
  have l: "item_status (listing 2 40) = Active" "owner (listing 2 40) \<noteq> 3"
    by (simp_all add: listing_def)
  from one_unexpired_request_per_item [OF a b c, where i = 10 and u = 3 and ty = Redeem
      and msg = None and j = None] n p i o l
  have "post_swaps 5 3 10 Redeem None None ?s = Inl DuplicateActiveRequest"
    by simp
  with a b n show ?thesis by blast
qed

section \<open>Scenario B\<close>




end
